theory Spec2Isabelle
  imports Main "HOL-Library.Word" "HOL-Library.Signed_Division"
begin

section \<open>Data model\<close>

text \<open>
  A \<^verbatim>\<open>std::byte\<close> is an 8-bit word. A cell of an array is either a byte that has
  been written or \<open>None\<close>, the indeterminate value of storage that was never written
  (the member \<^verbatim>\<open>m_data\<close> has no initialiser). \<^verbatim>\<open>size_t\<close> values are only
  compared, copied and halved in this program, so they are natural numbers.
\<close>

type_synonym byte = "8 word"

type_synonym cell = "byte option"

datatype ReturnMethod = Array | Vector

datatype ExceptionHandling = Omit | Include

text \<open>
  What can end a call other than a returned value: the exception \<^verbatim>\<open>std::bad_alloc\<close>,
  an access outside the bytes an argument refers to, and control reaching the closing brace of
  a function that has to return a value. The last two are undefined behaviour in C++.
\<close>

datatype fault = bad_alloc | out_of_bounds | no_return

record StackBuffer =
  m_data :: "cell list"
  m_length :: nat

text \<open>
  \<^verbatim>\<open>std::memcpy(dst, src, n)\<close> overwrites the first \<open>n\<close> cells of \<open>dst\<close> with the
  first \<open>n\<close> cells of \<open>src\<close>. Both ranges have to exist.
\<close>

definition memcpy :: "cell list \<Rightarrow> cell list \<Rightarrow> nat \<Rightarrow> fault + cell list" where
  "memcpy dst src n =
     (if n \<le> length dst \<and> n \<le> length src
      then Inr (take n src @ drop n dst)
      else Inl out_of_bounds)"

section \<open>StackBuffer\<close>

text \<open>
  \<^verbatim>\<open>StackBuffer(const std::byte *buffer, size_t length)\<close>: the argument \<open>buffer\<close> is
  the list of bytes readable from the pointer, \<open>len\<close> the length that is passed along.
\<close>

definition StackBuffer_ctor :: "nat \<Rightarrow> byte list \<Rightarrow> nat \<Rightarrow> fault + StackBuffer" where
  "StackBuffer_ctor TSize buffer len =
     (let l = min TSize len in
      case memcpy (replicate TSize None) (map Some buffer) l of
        Inl e \<Rightarrow> Inl e
      | Inr d \<Rightarrow> Inr \<lparr>m_data = d, m_length = l\<rparr>)"

text \<open>\<^verbatim>\<open>StackBuffer(const StackBuffer &source)\<close>\<close>

definition StackBuffer_copy :: "nat \<Rightarrow> StackBuffer \<Rightarrow> fault + StackBuffer" where
  "StackBuffer_copy TSize source =
     (case memcpy (replicate TSize None) (m_data source) (m_length source) of
        Inl e \<Rightarrow> Inl e
      | Inr d \<Rightarrow> Inr \<lparr>m_data = d, m_length = m_length source\<rparr>)"

text \<open>\<^verbatim>\<open>StackBuffer(StackBuffer &&source)\<close>: the same statements as the copy constructor.\<close>

definition StackBuffer_move :: "nat \<Rightarrow> StackBuffer \<Rightarrow> fault + StackBuffer" where
  "StackBuffer_move TSize source =
     (case memcpy (replicate TSize None) (m_data source) (m_length source) of
        Inl e \<Rightarrow> Inl e
      | Inr d \<Rightarrow> Inr \<lparr>m_data = d, m_length = m_length source\<rparr>)"

text \<open>
  The assignment operators compare addresses (\<^verbatim>\<open>this != &source\<close>), so they act on a store
  that maps the address of each live object to its value. Both operators are declared to return
  \<^verbatim>\<open>StackBuffer &\<close> and neither has a \<^verbatim>\<open>return\<close> statement: on every path control
  reaches the closing brace. The model returns the outcome of the call together with the store
  as the body leaves it.
\<close>

type_synonym addr = nat

type_synonym store = "addr \<rightharpoonup> StackBuffer"

definition StackBuffer_assign_copy :: "store \<Rightarrow> addr \<Rightarrow> addr \<Rightarrow> (fault + addr) \<times> store" where
  "StackBuffer_assign_copy s this source =
     (case (s this, s source) of
        (Some t, Some src) \<Rightarrow>
          if this \<noteq> source then
            (case memcpy (m_data t) (m_data src) (m_length src) of
               Inl e \<Rightarrow> (Inl e, s)
             | Inr d \<Rightarrow> (Inl no_return, s(this \<mapsto> \<lparr>m_data = d, m_length = m_length src\<rparr>)))
          else (Inl no_return, s)
      | _ \<Rightarrow> (Inl out_of_bounds, s))"

definition StackBuffer_assign_move :: "store \<Rightarrow> addr \<Rightarrow> addr \<Rightarrow> (fault + addr) \<times> store" where
  "StackBuffer_assign_move s this source =
     (case (s this, s source) of
        (Some t, Some src) \<Rightarrow>
          if this \<noteq> source then
            (case memcpy (m_data t) (m_data src) (m_length src) of
               Inl e \<Rightarrow> (Inl e, s)
             | Inr d \<Rightarrow> (Inl no_return, s(this \<mapsto> \<lparr>m_data = d, m_length = m_length src\<rparr>)))
          else (Inl no_return, s)
      | _ \<Rightarrow> (Inl out_of_bounds, s))"

section \<open>The environment\<close>

text \<open>
  The program asks its environment for three things: heap memory, the time, and standard
  output. The first two are answers the program cannot compute, so they are parameters of the
  model: \<open>new_ok k n\<close> tells whether the \<open>k\<close>-th request to the allocator, for \<open>n\<close>
  bytes, is granted, and \<open>clock k\<close> is the \<open>k\<close>-th reading of
  \<^verbatim>\<open>high_resolution_clock::now()\<close> in nanoseconds. The state that is threaded through
  the calls counts the requests and the readings made so far and holds the lines written to
  \<^verbatim>\<open>std::cout\<close>.
\<close>

record world =
  allocs :: nat
  ticks :: nat
  cout :: "string list"

definition now :: "(nat \<Rightarrow> int) \<Rightarrow> world \<Rightarrow> int \<times> world" where
  "now clock w = (clock (ticks w), w\<lparr>ticks := Suc (ticks w)\<rparr>)"

text \<open>
  A request for \<open>n\<close> bytes of heap memory: it is counted, and it raises
  \<^verbatim>\<open>std::bad_alloc\<close> when the allocator refuses it.
\<close>

definition operator_new :: "(nat \<Rightarrow> nat \<Rightarrow> bool) \<Rightarrow> nat \<Rightarrow> world \<Rightarrow> (fault + unit) \<times> world" where
  "operator_new new_ok n w =
     (if new_ok (allocs w) n
      then (Inr (), w\<lparr>allocs := Suc (allocs w)\<rparr>)
      else (Inl bad_alloc, w\<lparr>allocs := Suc (allocs w)\<rparr>))"

text \<open>
  \<^verbatim>\<open>std::vector<std::byte>(buffer, buffer + length)\<close>: the range has to lie inside the
  readable bytes. For an empty range the constructor makes no request to the allocator and
  the vector is empty; otherwise storage for \<open>len\<close> bytes is requested and the range is
  copied into it.
\<close>

definition vector_range :: "(nat \<Rightarrow> nat \<Rightarrow> bool) \<Rightarrow> byte list \<Rightarrow> nat \<Rightarrow> world \<Rightarrow> (fault + byte list) \<times> world" where
  "vector_range new_ok buffer len w =
     (if len \<le> length buffer then
        (if len = 0 then (Inr [], w)
         else
           (case operator_new new_ok len w of
              (Inl e, w') \<Rightarrow> (Inl e, w')
            | (Inr u, w') \<Rightarrow> (Inr (take len buffer), w')))
      else (Inl out_of_bounds, w))"

section \<open>Transform and TryTransform\<close>

datatype variant = VStackBuffer StackBuffer | VVector "byte list"

text \<open>
  \<^verbatim>\<open>Transform<TSize, TReturnMethod>\<close>. In the first branch the temporary
  \<^verbatim>\<open>StackBuffer\<close> is moved into the returned variant by the move constructor. The last
  \<open>else\<close> is the end of the function body, reached by no value of the enumeration.
\<close>

definition Transform :: "nat \<Rightarrow> ReturnMethod \<Rightarrow> (nat \<Rightarrow> nat \<Rightarrow> bool) \<Rightarrow> byte list \<Rightarrow> nat \<Rightarrow> world \<Rightarrow> (fault + variant) \<times> world" where
  "Transform TSize TReturnMethod new_ok buffer len w =
     (if TReturnMethod = Array then
        (case StackBuffer_ctor TSize buffer len of
           Inl e \<Rightarrow> (Inl e, w)
         | Inr tmp \<Rightarrow>
             (case StackBuffer_move TSize tmp of
                Inl e \<Rightarrow> (Inl e, w)
              | Inr b \<Rightarrow> (Inr (VStackBuffer b), w)))
      else if TReturnMethod = Vector then
        (case vector_range new_ok buffer len w of
           (Inl e, w') \<Rightarrow> (Inl e, w')
         | (Inr v, w') \<Rightarrow> (Inr (VVector v), w'))
      else (Inl no_return, w))"

text \<open>
  \<^verbatim>\<open>TryTransform<TSize, TReturnMethod, TExceptionHandling>\<close>. The handler catches
  \<^verbatim>\<open>std::bad_alloc\<close> and nothing else.
\<close>

definition TryTransform :: "nat \<Rightarrow> ReturnMethod \<Rightarrow> ExceptionHandling \<Rightarrow> (nat \<Rightarrow> nat \<Rightarrow> bool) \<Rightarrow> byte list \<Rightarrow> nat \<Rightarrow> world \<Rightarrow> (fault + variant) \<times> world" where
  "TryTransform TSize TReturnMethod TExceptionHandling new_ok buffer len w =
     (if TExceptionHandling = Include then
        (case Transform TSize TReturnMethod new_ok buffer len w of
           (Inl e, w') \<Rightarrow> if e = bad_alloc then (Inr (VVector []), w') else (Inl e, w')
         | (Inr v, w') \<Rightarrow> (Inr v, w'))
      else if TExceptionHandling = Omit then
        Transform TSize TReturnMethod new_ok buffer len w
      else (Inl no_return, w))"

section \<open>The iteration driver and the trial runner\<close>

text \<open>\<^verbatim>\<open>DoNotOptimize\<close> is an empty \<^verbatim>\<open>asm\<close> statement: it computes nothing.\<close>

definition DoNotOptimize :: "'a \<Rightarrow> unit" where
  "DoNotOptimize v = ()"

text \<open>The \<^verbatim>\<open>for\<close> loop of \<^verbatim>\<open>TryMultipleTransforms\<close>, from the counter \<open>i\<close> on.\<close>

function TryMultipleTransforms_loop :: "nat \<Rightarrow> ReturnMethod \<Rightarrow> ExceptionHandling \<Rightarrow> (nat \<Rightarrow> nat \<Rightarrow> bool) \<Rightarrow> byte list \<Rightarrow> nat \<Rightarrow> int \<Rightarrow> int \<Rightarrow> world \<Rightarrow> (fault + unit) \<times> world" where
  "TryMultipleTransforms_loop TSize rm eh new_ok buffer len scaling i w =
     (if i < scaling then
        (case TryTransform TSize rm eh new_ok buffer len w of
           (Inl e, w') \<Rightarrow> (Inl e, w')
         | (Inr v, w') \<Rightarrow>
             (let u = DoNotOptimize v
              in TryMultipleTransforms_loop TSize rm eh new_ok buffer len scaling (i + 1) w'))
      else (Inr (), w))"
  by pat_completeness auto
termination
  by (relation "measure (\<lambda>(TSize, rm, eh, new_ok, buffer, len, scaling, i, w). nat (scaling - i))") auto

definition TryMultipleTransforms :: "nat \<Rightarrow> ReturnMethod \<Rightarrow> ExceptionHandling \<Rightarrow> (nat \<Rightarrow> nat \<Rightarrow> bool) \<Rightarrow> byte list \<Rightarrow> nat \<Rightarrow> world \<Rightarrow> (fault + int) \<times> world" where
  "TryMultipleTransforms TSize rm eh new_ok buffer len w =
     (let scaling = 10000 in
      case TryMultipleTransforms_loop TSize rm eh new_ok buffer len scaling 0 w of
        (Inl e, w') \<Rightarrow> (Inl e, w')
      | (Inr u, w') \<Rightarrow> (Inr scaling, w'))"

text \<open>
  The \<^verbatim>\<open>while\<close> loop of \<^verbatim>\<open>MeasureTransform\<close>. A sample is the elapsed time
  divided by the number of iterations; the division of \<^verbatim>\<open>std::chrono\<close> durations is the
  integer division of C++, which truncates towards zero (\<open>sdiv\<close>).
\<close>

function MeasureTransform_loop :: "nat \<Rightarrow> ReturnMethod \<Rightarrow> ExceptionHandling \<Rightarrow> (nat \<Rightarrow> nat \<Rightarrow> bool) \<Rightarrow> (nat \<Rightarrow> int) \<Rightarrow> byte list \<Rightarrow> int list \<Rightarrow> world \<Rightarrow> (fault + int list) \<times> world" where
  "MeasureTransform_loop TSize rm eh new_ok clock vecData vecSamples w =
     (if length vecSamples < 1000 then
        (case now clock w of
           (tpStart, w1) \<Rightarrow>
             (case TryMultipleTransforms TSize rm eh new_ok vecData (length vecData) w1 of
                (Inl e, w2) \<Rightarrow> (Inl e, w2)
              | (Inr scaling, w2) \<Rightarrow>
                  (case now clock w2 of
                     (tpEnd, w3) \<Rightarrow>
                       MeasureTransform_loop TSize rm eh new_ok clock vecData
                         (vecSamples @ [(tpEnd - tpStart) sdiv scaling]) w3)))
      else (Inr vecSamples, w))"
  by pat_completeness auto
termination
  by (relation "measure (\<lambda>(TSize, rm, eh, new_ok, clock, vecData, vecSamples, w). 1000 - length vecSamples)") auto

text \<open>
  \<^verbatim>\<open>MeasureTransform\<close>: \<^verbatim>\<open>reserve(40000)\<close> requests storage for 40000 durations of 8
  bytes each; the samples are sorted with \<^verbatim>\<open>std::sort\<close> and the element at index
  \<^verbatim>\<open>size() / 2\<close> is returned with the flag \<^verbatim>\<open>TReturnMethod == ReturnMethod::Vector\<close>.
  \<^verbatim>\<open>operator[]\<close> does not check its index, so an index outside the vector is written
  out as an access out of bounds.
\<close>

definition MeasureTransform :: "nat \<Rightarrow> ReturnMethod \<Rightarrow> ExceptionHandling \<Rightarrow> (nat \<Rightarrow> nat \<Rightarrow> bool) \<Rightarrow> (nat \<Rightarrow> int) \<Rightarrow> byte list \<Rightarrow> world \<Rightarrow> (fault + int \<times> bool) \<times> world" where
  "MeasureTransform TSize rm eh new_ok clock vecData w =
     (case operator_new new_ok (40000 * 8) w of
        (Inl e, w0) \<Rightarrow> (Inl e, w0)
      | (Inr u, w0) \<Rightarrow>
          (case MeasureTransform_loop TSize rm eh new_ok clock vecData [] w0 of
             (Inl e, w') \<Rightarrow> (Inl e, w')
           | (Inr vecSamples, w') \<Rightarrow>
               (let sorted_samples = sort vecSamples in
                if length sorted_samples div 2 < length sorted_samples
                then (Inr (sorted_samples ! (length sorted_samples div 2), rm = Vector), w')
                else (Inl out_of_bounds, w'))))"

section \<open>Reporting\<close>

text \<open>Decimal output of \<^verbatim>\<open>operator<<\<close> for unsigned and signed integers and for \<^verbatim>\<open>bool\<close>.\<close>

fun show_nat :: "nat \<Rightarrow> string" where
  "show_nat n =
     (if n < 10 then [char_of (48 + n)]
      else show_nat (n div 10) @ [char_of (48 + n mod 10)])"

definition show_int :: "int \<Rightarrow> string" where
  "show_int i = (if i < 0 then CHR ''-'' # show_nat (nat (- i)) else show_nat (nat i))"

definition show_bool :: "bool \<Rightarrow> string" where
  "show_bool b = (if b then ''1'' else ''0'')"

text \<open>\<^verbatim>\<open>static_cast<uint32_t>(TExceptionHandling)\<close>\<close>

fun ExceptionHandling_value :: "ExceptionHandling \<Rightarrow> nat" where
  "ExceptionHandling_value Omit = 0"
| "ExceptionHandling_value Include = 1"

text \<open>The text that one call of \<^verbatim>\<open>MeasureAndReport\<close> sends to \<^verbatim>\<open>std::cout\<close>.\<close>

definition report_line :: "nat \<Rightarrow> nat \<Rightarrow> int \<times> bool \<Rightarrow> ExceptionHandling \<Rightarrow> string" where
  "report_line n TSize testResult eh =
     ''Data: '' @ show_nat n @ '', Buffer: '' @ show_nat TSize
     @ '', Duration:'' @ show_int (fst testResult)
     @ '' ns, Vector: '' @ show_bool (snd testResult)
     @ '', Exceptions: '' @ show_nat (ExceptionHandling_value eh)"

definition MeasureAndReport :: "nat \<Rightarrow> ReturnMethod \<Rightarrow> ExceptionHandling \<Rightarrow> (nat \<Rightarrow> nat \<Rightarrow> bool) \<Rightarrow> (nat \<Rightarrow> int) \<Rightarrow> byte list \<Rightarrow> world \<Rightarrow> (fault + unit) \<times> world" where
  "MeasureAndReport TSize rm eh new_ok clock vecData w =
     (if TSize < length vecData then (Inr (), w)
      else
        (case MeasureTransform TSize rm eh new_ok clock vecData w of
           (Inl e, w') \<Rightarrow> (Inl e, w')
         | (Inr testResult, w') \<Rightarrow>
             (Inr (), w'\<lparr>cout := cout w' @ [report_line (length vecData) TSize testResult eh]\<rparr>)))"

section \<open>Sequences of StackBuffer operations\<close>

text \<open>
  The operations of the type, each naming the address of the object it writes. An operation
  that does not produce an object leaves the store as it is; an assignment leaves the store
  as its body wrote it.
\<close>

datatype operation =
    Construct addr "byte list" nat
  | CopyConstruct addr addr
  | MoveConstruct addr addr
  | CopyAssign addr addr
  | MoveAssign addr addr

fun apply_operation :: "nat \<Rightarrow> store \<Rightarrow> operation \<Rightarrow> store" where
  "apply_operation TSize s (Construct p buffer len) =
     (case StackBuffer_ctor TSize buffer len of Inl e \<Rightarrow> s | Inr b \<Rightarrow> s(p \<mapsto> b))"
| "apply_operation TSize s (CopyConstruct p q) =
     (case s q of
        None \<Rightarrow> s
      | Some src \<Rightarrow> (case StackBuffer_copy TSize src of Inl e \<Rightarrow> s | Inr b \<Rightarrow> s(p \<mapsto> b)))"
| "apply_operation TSize s (MoveConstruct p q) =
     (case s q of
        None \<Rightarrow> s
      | Some src \<Rightarrow> (case StackBuffer_move TSize src of Inl e \<Rightarrow> s | Inr b \<Rightarrow> s(p \<mapsto> b)))"
| "apply_operation TSize s (CopyAssign p q) = snd (StackBuffer_assign_copy s p q)"
| "apply_operation TSize s (MoveAssign p q) = snd (StackBuffer_assign_move s p q)"

fun run_operations :: "nat \<Rightarrow> store \<Rightarrow> operation list \<Rightarrow> store" where
  "run_operations TSize s [] = s"
| "run_operations TSize s (x # xs) = run_operations TSize (apply_operation TSize s x) xs"

section \<open>Notions used to state the properties\<close>

text \<open>The invariant of the type, for every object of a store.\<close>

definition length_le_capacity :: "nat \<Rightarrow> store \<Rightarrow> bool" where
  "length_le_capacity TSize s \<longleftrightarrow> (\<forall>p b. s p = Some b \<longrightarrow> m_length b \<le> TSize)"

text \<open>
  The \<open>j\<close>-th sample of a run of the trial runner that starts when \<open>t\<close> readings of the
  clock have been made: the readings \<open>t + 2j\<close> and \<open>t + 2j + 1\<close> enclose the \<open>j\<close>-th
  trial.
\<close>

definition trial_sample :: "(nat \<Rightarrow> int) \<Rightarrow> nat \<Rightarrow> nat \<Rightarrow> int" where
  "trial_sample clock t j = (clock (t + 2 * j + 1) - clock (t + 2 * j)) sdiv 10000"

definition trial_samples :: "(nat \<Rightarrow> int) \<Rightarrow> nat \<Rightarrow> int list" where
  "trial_samples clock t = map (trial_sample clock t) [0..<1000]"

declare TryMultipleTransforms_loop.simps [simp del]

declare MeasureTransform_loop.simps [simp del]

section \<open>Construction from a source\<close>

lemma memcpy_ok:
  "n \<le> length dst \<Longrightarrow> n \<le> length src \<Longrightarrow> memcpy dst src n = Inr (take n src @ drop n dst)"
  by (simp add: memcpy_def)

lemma StackBuffer_ctor_ok:
  assumes "len \<le> length buffer"
  shows "StackBuffer_ctor TSize buffer len =
    Inr \<lparr>m_data = map Some (take (min TSize len) buffer) @ replicate (TSize - len) None,
         m_length = min TSize len\<rparr>"
proof -
  have "memcpy (replicate TSize None) (map Some buffer) (min TSize len) =
      Inr (take (min TSize len) (map Some buffer) @ drop (min TSize len) (replicate TSize None))"
    using assms by (intro memcpy_ok) simp_all
  moreover have "drop (min TSize len) (replicate TSize None) = replicate (TSize - len) (None :: cell)"
    by simp
  ultimately show ?thesis
    by (simp add: StackBuffer_ctor_def Let_def take_map)
qed

text \<open>
  C1. Constructing a \<^verbatim>\<open>StackBuffer<TSize>\<close> from a source of \<open>len\<close> readable bytes
  returns a buffer whose length field is \<open>min TSize len\<close> and whose first \<open>min TSize len\<close>
  cells are the first \<open>min TSize len\<close> bytes of the source. When \<open>len \<le> TSize\<close> that is
  the whole source and the length is \<open>len\<close>; when \<open>len > TSize\<close> it is the first
  \<open>TSize\<close> bytes and the length is \<open>TSize\<close>.
\<close>

theorem StackBuffer_ctor_min:
  assumes "len \<le> length buffer"
  shows "\<exists>b. StackBuffer_ctor TSize buffer len = Inr b
           \<and> m_length b = min TSize len
           \<and> take (m_length b) (m_data b) = map Some (take (min TSize len) buffer)
           \<and> (len \<le> TSize \<longrightarrow> m_length b = len
                 \<and> take (m_length b) (m_data b) = map Some (take len buffer))
           \<and> (TSize < len \<longrightarrow> m_length b = TSize
                 \<and> take (m_length b) (m_data b) = map Some (take TSize buffer))"
proof -
  let ?l = "min TSize len"
  let ?b = "\<lparr>m_data = map Some (take ?l buffer) @ replicate (TSize - len) None, m_length = ?l\<rparr>"
  have ctor: "StackBuffer_ctor TSize buffer len = Inr ?b"
    using assms by (rule StackBuffer_ctor_ok)
  have len_l: "length (map Some (take ?l buffer)) = ?l"
    using assms by simp
  have content: "take (m_length ?b) (m_data ?b) = map Some (take ?l buffer)"
    using len_l by simp
  have fits: "len \<le> TSize \<Longrightarrow> ?l = len" and cut: "TSize < len \<Longrightarrow> ?l = TSize"
    by simp_all
  show ?thesis
    using ctor content fits cut by (intro exI [of _ ?b]) auto
qed

theorem StackBuffer_ctor_min_witness:
  "(3::nat) \<le> length [1, 2, 3 :: byte] \<and> (2::nat) < 3
     \<and> (\<exists>b. StackBuffer_ctor 2 [1, 2, 3] 3 = Inr b
           \<and> m_length b = 2
           \<and> take (m_length b) (m_data b) = [Some 1, Some 2])
     \<and> (3::nat) \<le> 4
     \<and> (\<exists>b. StackBuffer_ctor 4 [1, 2, 3] 3 = Inr b
           \<and> m_length b = 3
           \<and> take (m_length b) (m_data b) = [Some 1, Some 2, Some 3])"
proof -
  have h: "(3::nat) \<le> length [1, 2, 3 :: byte]"
    by simp
  from StackBuffer_ctor_min [OF h, of 2] StackBuffer_ctor_min [OF h, of 4] show ?thesis
    by auto
qed

section \<open>Copy and move construction\<close>

lemma StackBuffer_ctor_le:
  assumes "StackBuffer_ctor TSize buffer len = Inr b"
  shows "m_length b \<le> TSize"
  using assms by (auto simp: StackBuffer_ctor_def Let_def split: sum.splits)

lemma StackBuffer_copy_le:
  assumes "StackBuffer_copy TSize src = Inr b"
  shows "m_length b \<le> TSize"
  using assms by (auto simp: StackBuffer_copy_def memcpy_def split: sum.splits if_splits)

lemma StackBuffer_move_le:
  assumes "StackBuffer_move TSize src = Inr b"
  shows "m_length b \<le> TSize"
  using assms by (auto simp: StackBuffer_move_def memcpy_def split: sum.splits if_splits)

lemma StackBuffer_copy_fresh:
  assumes "length xs = l" and "l \<le> TSize"
  shows "StackBuffer_copy TSize \<lparr>m_data = xs @ replicate (TSize - l) None, m_length = l\<rparr>
       = Inr \<lparr>m_data = xs @ replicate (TSize - l) None, m_length = l\<rparr>"
  using assms by (simp add: StackBuffer_copy_def memcpy_def)

lemma StackBuffer_ctor_fresh:
  assumes "len \<le> length buffer" and "StackBuffer_ctor TSize buffer len = Inr b"
  shows "\<exists>xs l. length xs = l \<and> l \<le> TSize
           \<and> b = \<lparr>m_data = xs @ replicate (TSize - l) None, m_length = l\<rparr>"
proof -
  let ?l = "min TSize len"
  have "TSize - len = TSize - ?l"
    by simp
  then have "b = \<lparr>m_data = map Some (take ?l buffer) @ replicate (TSize - ?l) None, m_length = ?l\<rparr>"
    using assms StackBuffer_ctor_ok [OF assms(1), of TSize] by simp
  moreover have "length (map Some (take ?l buffer)) = ?l"
    using assms(1) by simp
  moreover have "?l \<le> TSize"
    by simp
  ultimately show ?thesis
    by blast
qed

lemma StackBuffer_copy_ctor:
  assumes "len \<le> length buffer" and "StackBuffer_ctor TSize buffer len = Inr b"
  shows "StackBuffer_copy TSize b = Inr b"
proof -
  from StackBuffer_ctor_fresh [OF assms] obtain xs l
    where "length xs = l" and "l \<le> TSize"
      and b: "b = \<lparr>m_data = xs @ replicate (TSize - l) None, m_length = l\<rparr>"
    by blast
  then show ?thesis
    unfolding b by (intro StackBuffer_copy_fresh)
qed

lemma StackBuffer_move_ctor:
  assumes "len \<le> length buffer" and "StackBuffer_ctor TSize buffer len = Inr b"
  shows "StackBuffer_move TSize b = Inr b"
  using StackBuffer_copy_ctor [OF assms]
  by (simp add: StackBuffer_move_def StackBuffer_copy_def)

section \<open>The assignment operators\<close>

text \<open>
  What the bodies write: when the two objects are distinct and the source's length fits both
  arrays, the target receives the source's length field and its first \<open>m_length\<close> cells.
  No path of either operator returns a value.
\<close>

lemma StackBuffer_assign_copy_writes:
  assumes "s this = Some t" and "s source = Some src" and "this \<noteq> source"
    and "m_length src \<le> length (m_data t)" and "m_length src \<le> length (m_data src)"
  shows "StackBuffer_assign_copy s this source =
    (Inl no_return,
     s(this \<mapsto> \<lparr>m_data = take (m_length src) (m_data src) @ drop (m_length src) (m_data t),
                  m_length = m_length src\<rparr>))"
  using assms by (simp add: StackBuffer_assign_copy_def memcpy_def)

lemma StackBuffer_assign_move_writes:
  assumes "s this = Some t" and "s source = Some src" and "this \<noteq> source"
    and "m_length src \<le> length (m_data t)" and "m_length src \<le> length (m_data src)"
  shows "StackBuffer_assign_move s this source =
    (Inl no_return,
     s(this \<mapsto> \<lparr>m_data = take (m_length src) (m_data src) @ drop (m_length src) (m_data t),
                  m_length = m_length src\<rparr>))"
  using assms by (simp add: StackBuffer_assign_move_def memcpy_def)

lemma StackBuffer_assign_copy_never_returns:
  "fst (StackBuffer_assign_copy s this source) \<noteq> Inr r"
  by (auto simp: StackBuffer_assign_copy_def split: option.splits sum.splits)

lemma StackBuffer_assign_move_never_returns:
  "fst (StackBuffer_assign_move s this source) \<noteq> Inr r"
  by (auto simp: StackBuffer_assign_move_def split: option.splits sum.splits)

text \<open>
  C6. Copy construction and move construction of a buffer that was constructed from a source
  return that same buffer, length field and cells (\<open>StackBuffer_copy_ctor\<close> and
  \<open>StackBuffer_move_ctor\<close>). Copy assignment and move assignment do not: for a buffer
  \<^verbatim>\<open>StackBuffer<4> a(src, 3)\<close> with \<^verbatim>\<open>src = {7, 8, 9}\<close> at address 0 and a buffer
  \<^verbatim>\<open>StackBuffer<4> b(src2, 2)\<close> with \<^verbatim>\<open>src2 = {1, 2}\<close> at address 1, the bodies of
  \<^verbatim>\<open>b = a\<close> and of \<^verbatim>\<open>b = std::move(a)\<close> write the length and the bytes of \<open>a\<close>
  into \<open>b\<close>, and then the call ends at the closing brace of a function declared to return
  \<^verbatim>\<open>StackBuffer &\<close>, with no value returned.
\<close>

theorem StackBuffer_assign_flows_off_end:
  "StackBuffer_ctor 4 [7, 8, 9] 3 = Inr \<lparr>m_data = [Some 7, Some 8, Some 9, None], m_length = 3\<rparr>
   \<and> StackBuffer_ctor 4 [1, 2] 2 = Inr \<lparr>m_data = [Some 1, Some 2, None, None], m_length = 2\<rparr>
   \<and> StackBuffer_assign_copy
        [0 \<mapsto> \<lparr>m_data = [Some 7, Some 8, Some 9, None], m_length = 3\<rparr>,
         1 \<mapsto> \<lparr>m_data = [Some 1, Some 2, None, None], m_length = 2\<rparr>] 1 0
      = (Inl no_return,
         [0 \<mapsto> \<lparr>m_data = [Some 7, Some 8, Some 9, None], m_length = 3\<rparr>,
          1 \<mapsto> \<lparr>m_data = [Some 7, Some 8, Some 9, None], m_length = 3\<rparr>])
   \<and> StackBuffer_assign_move
        [0 \<mapsto> \<lparr>m_data = [Some 7, Some 8, Some 9, None], m_length = 3\<rparr>,
         1 \<mapsto> \<lparr>m_data = [Some 1, Some 2, None, None], m_length = 2\<rparr>] 1 0
      = (Inl no_return,
         [0 \<mapsto> \<lparr>m_data = [Some 7, Some 8, Some 9, None], m_length = 3\<rparr>,
          1 \<mapsto> \<lparr>m_data = [Some 7, Some 8, Some 9, None], m_length = 3\<rparr>])"
  by (simp add: StackBuffer_ctor_def StackBuffer_assign_copy_def StackBuffer_assign_move_def
      memcpy_def eval_nat_numeral)

text \<open>
  C10. Self-assignment, \<^verbatim>\<open>a = a\<close> and \<^verbatim>\<open>a = std::move(a)\<close>, for the buffer
  \<^verbatim>\<open>StackBuffer<4> a(src, 2)\<close> with \<^verbatim>\<open>src = {1, 2}\<close> at address 0: the guard
  \<^verbatim>\<open>this != &source\<close> skips the body, so the store is the one before the call, and the
  call ends at the closing brace of the operator with no value returned.
\<close>

theorem StackBuffer_self_assign_flows_off_end:
  "StackBuffer_assign_copy [0 \<mapsto> \<lparr>m_data = [Some 1, Some 2, None, None], m_length = 2\<rparr>] 0 0
      = (Inl no_return, [0 \<mapsto> \<lparr>m_data = [Some 1, Some 2, None, None], m_length = 2\<rparr>])
   \<and> StackBuffer_assign_move [0 \<mapsto> \<lparr>m_data = [Some 1, Some 2, None, None], m_length = 2\<rparr>] 0 0
      = (Inl no_return, [0 \<mapsto> \<lparr>m_data = [Some 1, Some 2, None, None], m_length = 2\<rparr>])"
  by (simp add: StackBuffer_assign_copy_def StackBuffer_assign_move_def)

section \<open>The invariant: length at most capacity\<close>

lemma StackBuffer_assign_copy_inv:
  assumes "length_le_capacity TSize s"
  shows "length_le_capacity TSize (snd (StackBuffer_assign_copy s p q))"
  using assms unfolding length_le_capacity_def StackBuffer_assign_copy_def
  by (auto split: option.splits sum.splits)

lemma StackBuffer_assign_move_inv:
  assumes "length_le_capacity TSize s"
  shows "length_le_capacity TSize (snd (StackBuffer_assign_move s p q))"
  using assms unfolding length_le_capacity_def StackBuffer_assign_move_def
  by (auto split: option.splits sum.splits)

lemma apply_operation_inv:
  assumes "length_le_capacity TSize s"
  shows "length_le_capacity TSize (apply_operation TSize s x)"
proof (cases x)
  case (Construct p buffer len)
  with assms show ?thesis
    by (auto simp: length_le_capacity_def dest: StackBuffer_ctor_le split: sum.splits)
next
  case (CopyConstruct p q)
  with assms show ?thesis
    by (auto simp: length_le_capacity_def dest: StackBuffer_copy_le split: sum.splits option.splits)
next
  case (MoveConstruct p q)
  with assms show ?thesis
    by (auto simp: length_le_capacity_def dest: StackBuffer_move_le split: sum.splits option.splits)
next
  case (CopyAssign p q)
  with assms show ?thesis
    by (simp add: StackBuffer_assign_copy_inv)
next
  case (MoveAssign p q)
  with assms show ?thesis
    by (simp add: StackBuffer_assign_move_inv)
qed

lemma run_operations_inv:
  "length_le_capacity TSize s \<Longrightarrow> length_le_capacity TSize (run_operations TSize s ops)"
  by (induction ops arbitrary: s) (simp_all add: apply_operation_inv)

text \<open>
  C7. Starting from a store in which every \<^verbatim>\<open>StackBuffer<TSize>\<close> has a length field of
  at most \<open>TSize\<close> (the empty store is one), after any sequence of constructions from a
  source, copy and move constructions and copy and move assignments every buffer of the store
  has a length field of at most \<open>TSize\<close>. For an assignment the store is the one its body
  leaves.
\<close>

theorem StackBuffer_length_le_capacity:
  assumes "\<forall>q c. s q = Some c \<longrightarrow> m_length c \<le> TSize"
    and "run_operations TSize s ops p = Some b"
  shows "m_length b \<le> TSize"
proof -
  from assms(1) have "length_le_capacity TSize s"
    by (simp add: length_le_capacity_def)
  then have "length_le_capacity TSize (run_operations TSize s ops)"
    by (rule run_operations_inv)
  with assms(2) show ?thesis
    by (simp add: length_le_capacity_def)
qed

theorem StackBuffer_length_le_capacity_witness:
  "run_operations 2 Map.empty
        [Construct 0 [1, 2, 3] 3, Construct 1 [9] 1, CopyConstruct 2 0, MoveConstruct 3 1,
         CopyAssign 0 1, MoveAssign 1 2] 0
      = Some \<lparr>m_data = [Some 9, Some 2], m_length = 1\<rparr>
   \<and> m_length \<lparr>m_data = [Some 9, Some 2], m_length = 1\<rparr> \<le> 2"
proof -
  have h: "\<forall>q c. (Map.empty :: store) q = Some c \<longrightarrow> m_length c \<le> 2"
    by simp
  have r: "run_operations 2 Map.empty
        [Construct 0 [1, 2, 3] 3, Construct 1 [9] 1, CopyConstruct 2 0, MoveConstruct 3 1,
         CopyAssign 0 1, MoveAssign 1 2] 0
      = Some \<lparr>m_data = [Some 9, Some 2], m_length = 1\<rparr>"
    by (simp add: StackBuffer_ctor_def StackBuffer_copy_def StackBuffer_move_def
        StackBuffer_assign_copy_def StackBuffer_assign_move_def memcpy_def eval_nat_numeral)
  from StackBuffer_length_le_capacity [OF h r] h r show ?thesis
    by blast
qed

section \<open>Transform\<close>

lemma Transform_Array:
  assumes "len \<le> length buffer"
  shows "Transform TSize Array new_ok buffer len w =
    (Inr (VStackBuffer \<lparr>m_data = map Some (take (min TSize len) buffer) @ replicate (TSize - len) None,
         m_length = min TSize len\<rparr>), w)"
proof -
  note c = StackBuffer_ctor_ok [OF assms, of TSize]
  from StackBuffer_move_ctor [OF assms c] c show ?thesis
    by (simp add: Transform_def)
qed

lemma Transform_Vector:
  assumes "len \<le> length buffer"
  shows "Transform TSize Vector new_ok buffer len w =
    (if len = 0 then (Inr (VVector []), w)
     else (if new_ok (allocs w) len then Inr (VVector (take len buffer)) else Inl bad_alloc,
           w\<lparr>allocs := Suc (allocs w)\<rparr>))"
  using assms by (simp add: Transform_def vector_range_def operator_new_def)

text \<open>
  C8. For a source with at least \<open>len\<close> readable bytes, \<^verbatim>\<open>Transform\<close> with the
  strategy \<open>Vector\<close> returns the vector of exactly the first \<open>len\<close> bytes of the source
  whenever \<open>len = 0\<close>, where nothing is requested from the allocator and the environment is
  untouched, or the allocator grants the request for \<open>len\<close> bytes. That vector has length
  \<open>len\<close>; whatever \<^verbatim>\<open>Transform\<close> returns is that vector; its only failure is
  \<^verbatim>\<open>std::bad_alloc\<close>; and the outcome is the same for every capacity.
\<close>

theorem Transform_Vector_exact:
  assumes "len \<le> length buffer"
  shows "(len = 0 \<or> new_ok (allocs w) len \<longrightarrow>
            (\<exists>w'. Transform TSize Vector new_ok buffer len w = (Inr (VVector (take len buffer)), w')))
       \<and> (len = 0 \<longrightarrow> Transform TSize Vector new_ok buffer len w = (Inr (VVector []), w))
       \<and> length (take len buffer) = len
       \<and> (\<forall>r w'. Transform TSize Vector new_ok buffer len w = (Inr r, w') \<longrightarrow>
            (\<exists>v. r = VVector v \<and> length v = len \<and> v = take len buffer))
       \<and> (\<forall>e w'. Transform TSize Vector new_ok buffer len w = (Inl e, w') \<longrightarrow> e = bad_alloc)
       \<and> Transform TSize Vector new_ok buffer len w = Transform TSize' Vector new_ok buffer len w"
  using assms by (auto simp: Transform_Vector split: if_splits)

theorem Transform_Vector_exact_witness:
  "(5::nat) \<le> length [1, 2, 3, 4, 5 :: byte]
   \<and> (\<lambda>k n. True) (allocs \<lparr>allocs = 0, ticks = 0, cout = []\<rparr>) (5::nat)
   \<and> Transform 4 Vector (\<lambda>k n. True) [1, 2, 3, 4, 5] 5 \<lparr>allocs = 0, ticks = 0, cout = []\<rparr>
       = (Inr (VVector [1, 2, 3, 4, 5]), \<lparr>allocs = 1, ticks = 0, cout = []\<rparr>)
   \<and> Transform 4 Vector (\<lambda>k n. True) [1, 2, 3, 4, 5] 5 \<lparr>allocs = 0, ticks = 0, cout = []\<rparr>
       = Transform 64 Vector (\<lambda>k n. True) [1, 2, 3, 4, 5] 5 \<lparr>allocs = 0, ticks = 0, cout = []\<rparr>
   \<and> (2::nat) \<le> length [1, 2, 3, 4, 5 :: byte]
   \<and> (\<exists>w'. Transform 4 Vector (\<lambda>k n. True) [1, 2, 3, 4, 5] 2 \<lparr>allocs = 0, ticks = 0, cout = []\<rparr>
       = (Inr (VVector [1, 2]), w'))
   \<and> (0::nat) \<le> length ([] :: byte list)
   \<and> Transform 1 Vector (\<lambda>k n. False) [] 0 \<lparr>allocs = 0, ticks = 0, cout = []\<rparr>
       = (Inr (VVector []), \<lparr>allocs = 0, ticks = 0, cout = []\<rparr>)"
proof -
  let ?w = "\<lparr>allocs = 0, ticks = 0, cout = []\<rparr>"
  let ?b = "[1, 2, 3, 4, 5 :: byte]"
  have h5: "(5::nat) \<le> length ?b" and h2: "(2::nat) \<le> length ?b"
    and h0: "(0::nat) \<le> length ([] :: byte list)"
    by simp_all
  have g: "(\<lambda>k n. True) (allocs ?w) (5::nat)"
    by simp
  note full = Transform_Vector_exact [OF h5, of "\<lambda>k n. True" ?w 4 64]
  note part = Transform_Vector_exact [OF h2, of "\<lambda>k n. True" ?w 4 4]
  note none = Transform_Vector_exact [OF h0, of "\<lambda>k n. False" ?w 1 1]
  have "\<exists>w'. Transform 4 Vector (\<lambda>k n. True) ?b 5 ?w = (Inr (VVector (take 5 ?b)), w')"
    using full [THEN conjunct1] by simp
  then obtain w1
    where r: "Transform 4 Vector (\<lambda>k n. True) ?b 5 ?w = (Inr (VVector ?b), w1)"
    by auto
  have "Transform 4 Vector (\<lambda>k n. True) ?b 5 ?w
      = (Inr (VVector ?b), \<lparr>allocs = 1, ticks = 0, cout = []\<rparr>)"
    by (simp add: Transform_Vector)
  with r have a: "Transform 4 Vector (\<lambda>k n. True) ?b 5 ?w
      = (Inr (VVector ?b), \<lparr>allocs = 1, ticks = 0, cout = []\<rparr>)"
    by simp
  have b: "Transform 4 Vector (\<lambda>k n. True) ?b 5 ?w = Transform 64 Vector (\<lambda>k n. True) ?b 5 ?w"
    by (rule full [THEN conjunct2, THEN conjunct2, THEN conjunct2, THEN conjunct2, THEN conjunct2])
  have "\<exists>w'. Transform 4 Vector (\<lambda>k n. True) ?b 2 ?w = (Inr (VVector (take 2 ?b)), w')"
    using part [THEN conjunct1] by simp
  then have c: "\<exists>w'. Transform 4 Vector (\<lambda>k n. True) ?b 2 ?w = (Inr (VVector [1, 2]), w')"
    by (simp add: eval_nat_numeral)
  have d: "Transform 1 Vector (\<lambda>k n. False) [] 0 ?w = (Inr (VVector []), ?w)"
    using none [THEN conjunct2, THEN conjunct1] by simp
  show ?thesis
    using h5 g a b h2 c h0 d by (intro conjI)
qed

text \<open>
  C9. For a source with at least \<open>len\<close> readable bytes, \<^verbatim>\<open>Transform\<close> with the
  strategy \<open>Array\<close> returns a \<^verbatim>\<open>StackBuffer\<close> and leaves the environment untouched;
  the only failure of \<^verbatim>\<open>Transform\<close> is \<^verbatim>\<open>std::bad_alloc\<close> with the strategy
  \<open>Vector\<close>; and \<^verbatim>\<open>TryTransform\<close> in mode \<open>Include\<close> with the strategy \<open>Array\<close>
  returns what \<^verbatim>\<open>Transform\<close> returns, never the empty vector of its handler.
\<close>

theorem Transform_Array_never_fails:
  assumes "len \<le> length buffer"
  shows "(\<exists>b. Transform TSize Array new_ok buffer len w = (Inr (VStackBuffer b), w))
       \<and> (\<forall>e w'. Transform TSize rm new_ok buffer len w = (Inl e, w') \<longrightarrow> e = bad_alloc \<and> rm = Vector)
       \<and> TryTransform TSize Array Include new_ok buffer len w
           = Transform TSize Array new_ok buffer len w
       \<and> TryTransform TSize Array Include new_ok buffer len w \<noteq> (Inr (VVector []), w)"
proof -
  have a: "\<exists>b. Transform TSize Array new_ok buffer len w = (Inr (VStackBuffer b), w)"
    using assms by (simp add: Transform_Array)
  have only: "e = bad_alloc \<and> rm = Vector"
    if "Transform TSize rm new_ok buffer len w = (Inl e, w')" for e w'
  proof (cases rm)
    case Array
    with a that show ?thesis by auto
  next
    case Vector
    with that assms show ?thesis
      by (simp add: Transform_Vector split: if_splits)
  qed
  from a obtain b where b: "Transform TSize Array new_ok buffer len w = (Inr (VStackBuffer b), w)"
    by blast
  then have t: "TryTransform TSize Array Include new_ok buffer len w = (Inr (VStackBuffer b), w)"
    by (simp add: TryTransform_def)
  from a only b t show ?thesis
    by auto
qed

theorem Transform_Array_never_fails_witness:
  "(5::nat) \<le> length [1, 2, 3, 4, 5 :: byte]
   \<and> (\<exists>b. Transform 4 Array (\<lambda>k n. False) [1, 2, 3, 4, 5] 5 \<lparr>allocs = 0, ticks = 0, cout = []\<rparr>
          = (Inr (VStackBuffer b), \<lparr>allocs = 0, ticks = 0, cout = []\<rparr>))
   \<and> Transform 4 Vector (\<lambda>k n. False) [1, 2, 3, 4, 5] 5 \<lparr>allocs = 0, ticks = 0, cout = []\<rparr>
          = (Inl bad_alloc, \<lparr>allocs = 1, ticks = 0, cout = []\<rparr>)"
proof -
  have h: "(5::nat) \<le> length [1, 2, 3, 4, 5 :: byte]"
    by simp
  have "Transform 4 Vector (\<lambda>k n. False) [1, 2, 3, 4, 5] 5 \<lparr>allocs = 0, ticks = 0, cout = []\<rparr>
          = (Inl bad_alloc, \<lparr>allocs = 1, ticks = 0, cout = []\<rparr>)"
    by (simp add: Transform_Vector)
  with Transform_Array_never_fails [OF h, of 4 "\<lambda>k n. False" "\<lparr>allocs = 0, ticks = 0, cout = []\<rparr>" Vector] h
  show ?thesis
    by blast
qed

section \<open>TryTransform\<close>

text \<open>
  C4. In mode \<open>Include\<close>, \<^verbatim>\<open>TryTransform\<close> returns the value that
  \<^verbatim>\<open>Transform\<close> returns, and when \<^verbatim>\<open>Transform\<close> raises \<^verbatim>\<open>std::bad_alloc\<close>
  it returns the empty vector instead. In mode \<open>Omit\<close> it is \<^verbatim>\<open>Transform\<close>: every
  failure reaches the caller.
\<close>

theorem TryTransform_modes:
  "(Transform TSize rm new_ok buffer len w = (Inr v, w')
      \<longrightarrow> TryTransform TSize rm Include new_ok buffer len w = (Inr v, w'))
   \<and> (Transform TSize rm new_ok buffer len w = (Inl bad_alloc, w')
      \<longrightarrow> TryTransform TSize rm Include new_ok buffer len w = (Inr (VVector []), w'))
   \<and> TryTransform TSize rm Omit new_ok buffer len w = Transform TSize rm new_ok buffer len w"
  by (simp add: TryTransform_def)

theorem TryTransform_modes_witness:
  "Transform 4 Vector (\<lambda>k n. True) [1, 2] 2 \<lparr>allocs = 0, ticks = 0, cout = []\<rparr>
     = (Inr (VVector [1, 2]), \<lparr>allocs = 1, ticks = 0, cout = []\<rparr>)
   \<and> TryTransform 4 Vector Include (\<lambda>k n. True) [1, 2] 2 \<lparr>allocs = 0, ticks = 0, cout = []\<rparr>
     = (Inr (VVector [1, 2]), \<lparr>allocs = 1, ticks = 0, cout = []\<rparr>)
   \<and> Transform 4 Vector (\<lambda>k n. False) [1, 2] 2 \<lparr>allocs = 0, ticks = 0, cout = []\<rparr>
     = (Inl bad_alloc, \<lparr>allocs = 1, ticks = 0, cout = []\<rparr>)
   \<and> TryTransform 4 Vector Include (\<lambda>k n. False) [1, 2] 2 \<lparr>allocs = 0, ticks = 0, cout = []\<rparr>
     = (Inr (VVector []), \<lparr>allocs = 1, ticks = 0, cout = []\<rparr>)
   \<and> TryTransform 4 Vector Omit (\<lambda>k n. False) [1, 2] 2 \<lparr>allocs = 0, ticks = 0, cout = []\<rparr>
     = (Inl bad_alloc, \<lparr>allocs = 1, ticks = 0, cout = []\<rparr>)"
proof -
  let ?w = "\<lparr>allocs = 0, ticks = 0, cout = []\<rparr>" and ?w' = "\<lparr>allocs = 1, ticks = 0, cout = []\<rparr>"
  have ok: "Transform 4 Vector (\<lambda>k n. True) [1, 2] 2 ?w = (Inr (VVector [1, 2]), ?w')"
    by (simp add: Transform_Vector)
  have oom: "Transform 4 Vector (\<lambda>k n. False) [1, 2] 2 ?w = (Inl bad_alloc, ?w')"
    by (simp add: Transform_Vector)
  from TryTransform_modes [of 4 Vector "\<lambda>k n. True" "[1, 2]" 2 ?w "VVector [1, 2]" ?w']
    TryTransform_modes [of 4 Vector "\<lambda>k n. False" "[1, 2]" 2 ?w _ ?w']
    ok oom
  show ?thesis
    by simp
qed

text \<open>
  C5. Whenever \<^verbatim>\<open>Transform\<close> returns a value, \<^verbatim>\<open>TryTransform\<close> gives the same
  outcome in mode \<open>Include\<close> as in mode \<open>Omit\<close>, for every capacity, strategy and input.
\<close>

theorem TryTransform_Include_eq_Omit:
  assumes "Transform TSize rm new_ok buffer len w = (Inr v, w')"
  shows "TryTransform TSize rm Include new_ok buffer len w
       = TryTransform TSize rm Omit new_ok buffer len w"
  using assms by (simp add: TryTransform_def)

theorem TryTransform_Include_eq_Omit_witness:
  "Transform 4 Array (\<lambda>k n. False) [1, 2, 3, 4, 5] 5 \<lparr>allocs = 0, ticks = 0, cout = []\<rparr>
     = (Inr (VStackBuffer \<lparr>m_data = [Some 1, Some 2, Some 3, Some 4], m_length = 4\<rparr>),
        \<lparr>allocs = 0, ticks = 0, cout = []\<rparr>)
   \<and> TryTransform 4 Array Include (\<lambda>k n. False) [1, 2, 3, 4, 5] 5 \<lparr>allocs = 0, ticks = 0, cout = []\<rparr>
     = TryTransform 4 Array Omit (\<lambda>k n. False) [1, 2, 3, 4, 5] 5 \<lparr>allocs = 0, ticks = 0, cout = []\<rparr>"
proof -
  let ?w = "\<lparr>allocs = 0, ticks = 0, cout = []\<rparr>"
  have ok: "Transform 4 Array (\<lambda>k n. False) [1, 2, 3, 4, 5] 5 ?w
      = (Inr (VStackBuffer \<lparr>m_data = [Some 1, Some 2, Some 3, Some 4], m_length = 4\<rparr>), ?w)"
    by (simp add: Transform_Array)
  from TryTransform_Include_eq_Omit [OF ok] ok show ?thesis
    by simp
qed

section \<open>The loops\<close>

subsection \<open>What the loops leave unchanged\<close>

lemma Transform_frame:
  assumes "Transform TSize rm new_ok buffer len w = (r, w')"
  shows "ticks w' = ticks w \<and> cout w' = cout w"
  using assms
  by (cases rm)
    (auto simp: Transform_def vector_range_def operator_new_def split: sum.splits if_splits)

lemma TryTransform_frame:
  assumes "TryTransform TSize rm eh new_ok buffer len w = (r, w')"
  shows "ticks w' = ticks w \<and> cout w' = cout w"
proof (cases eh)
  case Omit
  with assms show ?thesis
    by (simp add: TryTransform_def Transform_frame)
next
  case Include
  obtain r0 w0 where t: "Transform TSize rm new_ok buffer len w = (r0, w0)"
    by (cases "Transform TSize rm new_ok buffer len w")
  with assms Include have "w' = w0"
    by (cases r0) (auto simp: TryTransform_def split: if_splits)
  with Transform_frame [OF t] show ?thesis
    by simp
qed

lemma TryMultipleTransforms_loop_frame:
  assumes "TryMultipleTransforms_loop TSize rm eh new_ok buffer len scaling i w = (r, w')"
  shows "ticks w' = ticks w \<and> cout w' = cout w"
  using assms
proof (induction "nat (scaling - i)" arbitrary: i w)
  case 0
  then have "\<not> i < scaling"
    by simp
  with 0 show ?case
    by (simp add: TryMultipleTransforms_loop.simps [of TSize rm eh new_ok buffer len scaling i w])
next
  case (Suc n)
  then have lt: "i < scaling" and n: "n = nat (scaling - (i + 1))"
    by simp_all
  obtain r1 w1 where t: "TryTransform TSize rm eh new_ok buffer len w = (r1, w1)"
    by (cases "TryTransform TSize rm eh new_ok buffer len w")
  note f = TryTransform_frame [OF t]
  show ?case
  proof (cases r1)
    case (Inl e)
    with lt t Suc.prems have "w' = w1"
      by (simp add: TryMultipleTransforms_loop.simps [of TSize rm eh new_ok buffer len scaling i w])
    with f show ?thesis
      by simp
  next
    case (Inr v)
    with lt t Suc.prems
    have "TryMultipleTransforms_loop TSize rm eh new_ok buffer len scaling (i + 1) w1 = (r, w')"
      by (simp add: TryMultipleTransforms_loop.simps [of TSize rm eh new_ok buffer len scaling i w])
    with Suc.hyps(1) [of "i + 1" w1] n f show ?thesis
      by simp
  qed
qed

lemma TryMultipleTransforms_frame:
  assumes "TryMultipleTransforms TSize rm eh new_ok buffer len w = (r, w')"
  shows "ticks w' = ticks w \<and> cout w' = cout w \<and> (\<forall>s. r = Inr s \<longrightarrow> s = 10000)"
proof -
  obtain r0 w0
    where l: "TryMultipleTransforms_loop TSize rm eh new_ok buffer len 10000 0 w = (r0, w0)"
    by (cases "TryMultipleTransforms_loop TSize rm eh new_ok buffer len 10000 0 w")
  with assms have "w' = w0 \<and> (\<forall>s. r = Inr s \<longrightarrow> s = 10000)"
    by (cases r0) (auto simp: TryMultipleTransforms_def)
  with TryMultipleTransforms_loop_frame [OF l] show ?thesis
    by simp
qed

lemma trial_sample_Suc: "trial_sample clock t (Suc j) = trial_sample clock (t + 2) j"
  by (simp add: trial_sample_def add.commute add.left_commute)

lemma length_trial_samples: "length (trial_samples clock t) = 1000"
  by (simp add: trial_samples_def)

lemma MeasureTransform_loop_partial:
  assumes "MeasureTransform_loop TSize rm eh new_ok clock vecData vecSamples w = (Inr xs, w')"
  shows "xs = vecSamples @ map (trial_sample clock (ticks w)) [0..<1000 - length vecSamples]
       \<and> ticks w' = ticks w + 2 * (1000 - length vecSamples) \<and> cout w' = cout w"
  using assms
proof (induction "1000 - length vecSamples" arbitrary: vecSamples w)
  case 0
  then have "\<not> length vecSamples < 1000"
    by simp
  with 0 show ?case
    by (simp add: MeasureTransform_loop.simps [of TSize rm eh new_ok clock vecData vecSamples w])
next
  case (Suc n)
  then have lt: "length vecSamples < 1000"
    by simp
  let ?w1 = "w\<lparr>ticks := Suc (ticks w)\<rparr>"
  have start: "now clock w = (clock (ticks w), ?w1)"
    by (simp add: now_def)
  obtain r2 w2
    where run: "TryMultipleTransforms TSize rm eh new_ok vecData (length vecData) ?w1 = (r2, w2)"
    by (cases "TryMultipleTransforms TSize rm eh new_ok vecData (length vecData) ?w1")
  from TryMultipleTransforms_frame [OF run]
  have w2: "ticks w2 = Suc (ticks w)" "cout w2 = cout w" and sc: "\<forall>s. r2 = Inr s \<longrightarrow> s = 10000"
    by simp_all
  have "r2 = Inr 10000"
  proof (cases r2)
    case (Inl e)
    with lt start run Suc.prems show ?thesis
      by (simp add: MeasureTransform_loop.simps [of TSize rm eh new_ok clock vecData vecSamples w])
  next
    case (Inr s)
    with sc show ?thesis
      by simp
  qed
  note run = run [unfolded this]
  let ?w3 = "w2\<lparr>ticks := Suc (ticks w2)\<rparr>"
  have stop: "now clock w2 = (clock (Suc (ticks w)), ?w3)"
    by (simp add: now_def w2)
  let ?x = "(clock (Suc (ticks w)) - clock (ticks w)) sdiv 10000"
  have x: "?x = trial_sample clock (ticks w) 0"
    by (simp add: trial_sample_def)
  have n: "n = 1000 - length (vecSamples @ [?x])"
    using Suc.hyps(2) by simp
  have "MeasureTransform_loop TSize rm eh new_ok clock vecData vecSamples w
      = MeasureTransform_loop TSize rm eh new_ok clock vecData (vecSamples @ [?x]) ?w3"
    using lt start run stop
    by (simp add: MeasureTransform_loop.simps [of TSize rm eh new_ok clock vecData vecSamples w])
  with Suc.prems
  have "MeasureTransform_loop TSize rm eh new_ok clock vecData (vecSamples @ [?x]) ?w3 = (Inr xs, w')"
    by simp
  with Suc.hyps(1) [of "vecSamples @ [?x]" ?w3] n
  have xs: "xs = (vecSamples @ [?x]) @ map (trial_sample clock (ticks ?w3)) [0..<n]"
    and w': "ticks w' = ticks ?w3 + 2 * n" "cout w' = cout ?w3"
    by simp_all
  have t3: "ticks ?w3 = ticks w + 2"
    by (simp add: w2)
  have "map (trial_sample clock (ticks w)) [0..<Suc n]
      = ?x # map (trial_sample clock (ticks ?w3)) [0..<n]"
    unfolding t3 x by (simp only: map_upt_Suc trial_sample_Suc)
  then have "xs = vecSamples @ map (trial_sample clock (ticks w)) [0..<1000 - length vecSamples]"
    using Suc.hyps(2) xs by simp
  moreover have "ticks w' = ticks w + 2 * (1000 - length vecSamples)"
    using w'(1) t3 Suc.hyps(2) by simp
  moreover have "cout w' = cout w"
    using w'(2) w2 by simp
  ultimately show ?case
    by blast
qed

lemma MeasureTransform_partial:
  assumes "MeasureTransform TSize rm eh new_ok clock vecData w = (Inr r, w')"
  shows "r = (sort (trial_samples clock (ticks w)) ! 500, rm = Vector)
       \<and> MeasureTransform_loop TSize rm eh new_ok clock vecData [] (w\<lparr>allocs := Suc (allocs w)\<rparr>)
           = (Inr (trial_samples clock (ticks w)), w')
       \<and> ticks w' = ticks w + 2000 \<and> cout w' = cout w"
proof -
  let ?w0 = "w\<lparr>allocs := Suc (allocs w)\<rparr>"
  have reserve: "operator_new new_ok (40000 * 8) w = (Inr (), ?w0)"
    using assms by (auto simp: MeasureTransform_def operator_new_def split: if_splits)
  obtain r1 w1
    where l: "MeasureTransform_loop TSize rm eh new_ok clock vecData [] ?w0 = (r1, w1)"
    by (cases "MeasureTransform_loop TSize rm eh new_ok clock vecData [] ?w0")
  from assms reserve l obtain xs where r1: "r1 = Inr xs" and w1: "w1 = w'"
    by (cases r1) (auto simp: MeasureTransform_def Let_def split: if_splits)
  from MeasureTransform_loop_partial [OF l [unfolded r1]]
  have xs: "xs = trial_samples clock (ticks w)"
    and w': "ticks w1 = ticks w + 2000" "cout w1 = cout w"
    by (simp_all add: trial_samples_def)
  from assms reserve l r1 xs have "r = (sort (trial_samples clock (ticks w)) ! 500, rm = Vector)"
    by (auto simp: MeasureTransform_def Let_def length_trial_samples split: if_splits)
  with l r1 xs w1 w' show ?thesis
    by simp
qed

subsection \<open>When the loops return\<close>

lemma TryTransform_returns:
  assumes "len \<le> length buffer"
    and "eh = Include \<or> rm = Array \<or> (\<forall>k. new_ok k len)"
  shows "\<exists>v w'. TryTransform TSize rm eh new_ok buffer len w = (Inr v, w')
           \<and> ticks w' = ticks w \<and> cout w' = cout w"
proof (cases rm)
  case Array
  with assms(1) show ?thesis
    by (cases eh) (simp_all add: TryTransform_def Transform_Array)
next
  case Vector
  show ?thesis
  proof (cases eh)
    case Omit
    with Vector assms show ?thesis
      by (simp add: TryTransform_def Transform_Vector)
  next
    case Include
    with Vector assms(1) show ?thesis
      by (simp add: TryTransform_def Transform_Vector)
  qed
qed

lemma TryMultipleTransforms_loop_returns:
  assumes "len \<le> length buffer"
    and "eh = Include \<or> rm = Array \<or> (\<forall>k. new_ok k len)"
  shows "\<exists>w'. TryMultipleTransforms_loop TSize rm eh new_ok buffer len scaling i w = (Inr (), w')
           \<and> ticks w' = ticks w \<and> cout w' = cout w"
proof (induction "nat (scaling - i)" arbitrary: i w)
  case 0
  then have "\<not> i < scaling"
    by simp
  then show ?case
    by (simp add: TryMultipleTransforms_loop.simps [of TSize rm eh new_ok buffer len scaling i w])
next
  case (Suc n)
  then have lt: "i < scaling" and n: "n = nat (scaling - (i + 1))"
    by simp_all
  have "\<exists>v w'. TryTransform TSize rm eh new_ok buffer len w = (Inr v, w')
      \<and> ticks w' = ticks w \<and> cout w' = cout w"
    using assms by (rule TryTransform_returns)
  then obtain v w1
    where t: "TryTransform TSize rm eh new_ok buffer len w = (Inr v, w1)"
      and w1: "ticks w1 = ticks w" "cout w1 = cout w"
    by blast
  from Suc.hyps(1) [of "i + 1" w1] n obtain w'
    where r: "TryMultipleTransforms_loop TSize rm eh new_ok buffer len scaling (i + 1) w1 = (Inr (), w')"
      and w': "ticks w' = ticks w1" "cout w' = cout w1"
    by blast
  have "TryMultipleTransforms_loop TSize rm eh new_ok buffer len scaling i w = (Inr (), w')"
    using lt t r
    by (simp add: TryMultipleTransforms_loop.simps [of TSize rm eh new_ok buffer len scaling i w]
        DoNotOptimize_def)
  with w1 w' show ?case
    by simp
qed

lemma TryMultipleTransforms_returns:
  assumes "len \<le> length buffer"
    and "eh = Include \<or> rm = Array \<or> (\<forall>k. new_ok k len)"
  shows "\<exists>w'. TryMultipleTransforms TSize rm eh new_ok buffer len w = (Inr 10000, w')
           \<and> ticks w' = ticks w \<and> cout w' = cout w"
proof -
  have "\<exists>w'. TryMultipleTransforms_loop TSize rm eh new_ok buffer len 10000 0 w = (Inr (), w')
      \<and> ticks w' = ticks w \<and> cout w' = cout w"
    using assms by (rule TryMultipleTransforms_loop_returns)
  then obtain w'
    where "TryMultipleTransforms_loop TSize rm eh new_ok buffer len 10000 0 w = (Inr (), w')"
      and "ticks w' = ticks w" "cout w' = cout w"
    by blast
  then show ?thesis
    by (simp add: TryMultipleTransforms_def)
qed

lemma MeasureTransform_loop_returns:
  assumes "eh = Include \<or> rm = Array \<or> (\<forall>k. new_ok k (length vecData))"
  shows "\<exists>w'. MeasureTransform_loop TSize rm eh new_ok clock vecData vecSamples w
             = (Inr (vecSamples @ map (trial_sample clock (ticks w)) [0..<1000 - length vecSamples]), w')
           \<and> ticks w' = ticks w + 2 * (1000 - length vecSamples) \<and> cout w' = cout w"
proof (induction "1000 - length vecSamples" arbitrary: vecSamples w)
  case 0
  then have "\<not> length vecSamples < 1000"
    by simp
  with 0 show ?case
    by (simp add: MeasureTransform_loop.simps [of TSize rm eh new_ok clock vecData vecSamples w])
next
  case (Suc n)
  then have lt: "length vecSamples < 1000"
    by simp
  let ?w1 = "w\<lparr>ticks := Suc (ticks w)\<rparr>"
  have start: "now clock w = (clock (ticks w), ?w1)"
    by (simp add: now_def)
  have "\<exists>w'. TryMultipleTransforms TSize rm eh new_ok vecData (length vecData) ?w1 = (Inr 10000, w')
      \<and> ticks w' = ticks ?w1 \<and> cout w' = cout ?w1"
    using order_refl assms by (rule TryMultipleTransforms_returns)
  then obtain w2
    where run: "TryMultipleTransforms TSize rm eh new_ok vecData (length vecData) ?w1 = (Inr 10000, w2)"
      and w2: "ticks w2 = Suc (ticks w)" "cout w2 = cout w"
    by auto
  let ?w3 = "w2\<lparr>ticks := Suc (ticks w2)\<rparr>"
  have stop: "now clock w2 = (clock (Suc (ticks w)), ?w3)"
    by (simp add: now_def w2)
  let ?x = "(clock (Suc (ticks w)) - clock (ticks w)) sdiv 10000"
  have x: "?x = trial_sample clock (ticks w) 0"
    by (simp add: trial_sample_def)
  have n: "n = 1000 - length (vecSamples @ [?x])"
    using Suc.hyps(2) by simp
  from Suc.hyps(1) [of "vecSamples @ [?x]" ?w3] n obtain w'
    where rec: "MeasureTransform_loop TSize rm eh new_ok clock vecData (vecSamples @ [?x]) ?w3
        = (Inr ((vecSamples @ [?x]) @ map (trial_sample clock (ticks ?w3)) [0..<n]), w')"
      and w': "ticks w' = ticks ?w3 + 2 * n" "cout w' = cout ?w3"
    using n by auto
  have t3: "ticks ?w3 = ticks w + 2"
    by (simp add: w2)
  have "map (trial_sample clock (ticks w)) [0..<Suc n]
      = ?x # map (trial_sample clock (ticks ?w3)) [0..<n]"
    unfolding t3 x by (simp only: map_upt_Suc trial_sample_Suc)
  then have samples: "(vecSamples @ [?x]) @ map (trial_sample clock (ticks ?w3)) [0..<n]
      = vecSamples @ map (trial_sample clock (ticks w)) [0..<1000 - length vecSamples]"
    using Suc.hyps(2) by simp
  have "MeasureTransform_loop TSize rm eh new_ok clock vecData vecSamples w
      = MeasureTransform_loop TSize rm eh new_ok clock vecData (vecSamples @ [?x]) ?w3"
    using lt start run stop
    by (simp add: MeasureTransform_loop.simps [of TSize rm eh new_ok clock vecData vecSamples w])
  with rec samples have "MeasureTransform_loop TSize rm eh new_ok clock vecData vecSamples w
      = (Inr (vecSamples @ map (trial_sample clock (ticks w)) [0..<1000 - length vecSamples]), w')"
    by simp
  moreover have "ticks w' = ticks w + 2 * (1000 - length vecSamples)"
    using w'(1) t3 Suc.hyps(2) by simp
  moreover have "cout w' = cout w"
    using w'(2) w2 by simp
  ultimately show ?case
    by blast
qed

lemma MeasureTransform_returns:
  assumes "new_ok (allocs w) (40000 * 8)"
    and "eh = Include \<or> rm = Array \<or> (\<forall>k. new_ok k (length vecData))"
  shows "\<exists>w'. MeasureTransform_loop TSize rm eh new_ok clock vecData [] (w\<lparr>allocs := Suc (allocs w)\<rparr>)
             = (Inr (trial_samples clock (ticks w)), w')
           \<and> MeasureTransform TSize rm eh new_ok clock vecData w
             = (Inr (sort (trial_samples clock (ticks w)) ! 500, rm = Vector), w')
           \<and> ticks w' = ticks w + 2000 \<and> cout w' = cout w"
proof -
  let ?w0 = "w\<lparr>allocs := Suc (allocs w)\<rparr>"
  have reserve: "operator_new new_ok (40000 * 8) w = (Inr (), ?w0)"
    using assms(1) by (simp add: operator_new_def)
  have "\<exists>w'. MeasureTransform_loop TSize rm eh new_ok clock vecData [] ?w0
             = (Inr ([] @ map (trial_sample clock (ticks ?w0)) [0..<1000 - length ([] :: int list)]), w')
           \<and> ticks w' = ticks ?w0 + 2 * (1000 - length ([] :: int list)) \<and> cout w' = cout ?w0"
    using assms(2) by (rule MeasureTransform_loop_returns)
  then obtain w'
    where loop: "MeasureTransform_loop TSize rm eh new_ok clock vecData [] ?w0
        = (Inr (trial_samples clock (ticks w)), w')"
      and w': "ticks w' = ticks w + 2000" "cout w' = cout w"
    by (auto simp: trial_samples_def)
  have "MeasureTransform TSize rm eh new_ok clock vecData w
      = (Inr (sort (trial_samples clock (ticks w)) ! 500, rm = Vector), w')"
    unfolding MeasureTransform_def reserve using loop
    by (simp add: Let_def length_trial_samples)
  with loop w' show ?thesis
    by blast
qed

subsection \<open>A clock for examples\<close>

text \<open>With this clock the \<open>j\<close>-th trial takes \<open>10000 * j\<close> nanoseconds.\<close>

lemma sdiv_scaling: "(10000 * int j) sdiv 10000 = int j"
  by (auto simp: signed_divide_int_def sgn_mult)

lemma sort_map_int_upt: "sort (map int [0..<n]) = map int [0..<n]"
  by (intro sorted_sort_id) (simp add: sorted_map sorted_wrt_iff_nth_less)

lemma trial_samples_ramp:
  "trial_samples (\<lambda>k. if odd k then 10000 * int (k div 2) else 0) 0 = map int [0..<1000]"
  by (simp add: trial_samples_def trial_sample_def sdiv_scaling)

lemma MeasureTransform_ramp:
  assumes "eh = Include \<or> rm = Array"
  shows "\<exists>w'. MeasureTransform TSize rm eh (\<lambda>k n. True)
              (\<lambda>k. if odd k then 10000 * int (k div 2) else 0) vecData
              \<lparr>allocs = 0, ticks = 0, cout = []\<rparr>
            = (Inr (500, rm = Vector), w')"
proof -
  let ?w = "\<lparr>allocs = 0, ticks = 0, cout = []\<rparr>"
  let ?clock = "\<lambda>k. if odd k then 10000 * int (k div 2) else 0"
  have "\<exists>w'. MeasureTransform_loop TSize rm eh (\<lambda>k n. True) ?clock vecData [] (?w\<lparr>allocs := Suc (allocs ?w)\<rparr>)
             = (Inr (trial_samples ?clock (ticks ?w)), w')
           \<and> MeasureTransform TSize rm eh (\<lambda>k n. True) ?clock vecData ?w
             = (Inr (sort (trial_samples ?clock (ticks ?w)) ! 500, rm = Vector), w')
           \<and> ticks w' = ticks ?w + 2000 \<and> cout w' = cout ?w"
    using assms by (intro MeasureTransform_returns) auto
  moreover have "sort (trial_samples ?clock (ticks ?w)) ! 500 = 500"
    using trial_samples_ramp by (simp add: sort_map_int_upt)
  ultimately show ?thesis
    by auto
qed

section \<open>The trial runner\<close>

text \<open>
  C2. Whenever \<^verbatim>\<open>MeasureTransform\<close> returns a pair, its loop has collected exactly the
  1000 samples of the 1000 trials, and the pair is the element at index 500 of the sorted
  samples together with the flag \<open>rm = Vector\<close>. It does return when the allocator grants the
  storage for the samples and no \<^verbatim>\<open>std::bad_alloc\<close> escapes \<^verbatim>\<open>TryTransform\<close>: the
  mode is \<open>Include\<close>, or the strategy is \<open>Array\<close>, or every request for the input's
  length is granted.
\<close>

theorem MeasureTransform_median:
  "(\<forall>r w'. MeasureTransform TSize rm eh new_ok clock vecData w = (Inr r, w') \<longrightarrow>
       MeasureTransform_loop TSize rm eh new_ok clock vecData [] (w\<lparr>allocs := Suc (allocs w)\<rparr>)
         = (Inr (trial_samples clock (ticks w)), w')
       \<and> r = (sort (trial_samples clock (ticks w)) ! 500, rm = Vector))
   \<and> length (trial_samples clock (ticks w)) = 1000
   \<and> length (sort (trial_samples clock (ticks w))) = 1000
   \<and> sorted (sort (trial_samples clock (ticks w)))
   \<and> (new_ok (allocs w) (40000 * 8)
        \<and> (eh = Include \<or> rm = Array \<or> (\<forall>k. new_ok k (length vecData))) \<longrightarrow>
       (\<exists>w'. MeasureTransform TSize rm eh new_ok clock vecData w
          = (Inr (sort (trial_samples clock (ticks w)) ! 500, rm = Vector), w')))"
proof (intro conjI allI impI)
  fix r w'
  assume m: "MeasureTransform TSize rm eh new_ok clock vecData w = (Inr r, w')"
  from MeasureTransform_partial [OF m]
  show "MeasureTransform_loop TSize rm eh new_ok clock vecData [] (w\<lparr>allocs := Suc (allocs w)\<rparr>)
      = (Inr (trial_samples clock (ticks w)), w')"
    and "r = (sort (trial_samples clock (ticks w)) ! 500, rm = Vector)"
    by simp_all
next
  show "length (trial_samples clock (ticks w)) = 1000"
    by (rule length_trial_samples)
  then show "length (sort (trial_samples clock (ticks w))) = 1000"
    by simp
  show "sorted (sort (trial_samples clock (ticks w)))"
    by simp
next
  assume a: "new_ok (allocs w) (40000 * 8)
      \<and> (eh = Include \<or> rm = Array \<or> (\<forall>k. new_ok k (length vecData)))"
  have "\<exists>w'. MeasureTransform_loop TSize rm eh new_ok clock vecData [] (w\<lparr>allocs := Suc (allocs w)\<rparr>)
             = (Inr (trial_samples clock (ticks w)), w')
           \<and> MeasureTransform TSize rm eh new_ok clock vecData w
             = (Inr (sort (trial_samples clock (ticks w)) ! 500, rm = Vector), w')
           \<and> ticks w' = ticks w + 2000 \<and> cout w' = cout w"
    using a by (intro MeasureTransform_returns) simp_all
  then show "\<exists>w'. MeasureTransform TSize rm eh new_ok clock vecData w
      = (Inr (sort (trial_samples clock (ticks w)) ! 500, rm = Vector), w')"
    by blast
qed

theorem MeasureTransform_median_witness:
  "(\<lambda>k n. True) (allocs \<lparr>allocs = 0, ticks = 0, cout = []\<rparr>) (40000 * 8 :: nat)
   \<and> (Omit = Include \<or> Array = Array \<or> (\<forall>k. (\<lambda>k n. True) (k :: nat) (length [1, 2, 3 :: byte])))
   \<and> (\<exists>w'. MeasureTransform 64 Array Omit (\<lambda>k n. True)
              (\<lambda>k. if odd k then 10000 * int (k div 2) else 0) [1, 2, 3]
              \<lparr>allocs = 0, ticks = 0, cout = []\<rparr>
            = (Inr (500, False), w')
          \<and> MeasureTransform_loop 64 Array Omit (\<lambda>k n. True)
              (\<lambda>k. if odd k then 10000 * int (k div 2) else 0) [1, 2, 3] []
              \<lparr>allocs = 1, ticks = 0, cout = []\<rparr>
            = (Inr (map int [0..<1000]), w'))"
proof -
  let ?w = "\<lparr>allocs = 0, ticks = 0, cout = []\<rparr>"
  let ?clock = "\<lambda>k. if odd k then 10000 * int (k div 2) else 0"
  have h: "(\<lambda>k n. True) (allocs ?w) (40000 * 8 :: nat)
      \<and> (Omit = Include \<or> Array = Array \<or> (\<forall>k. (\<lambda>k n. True) (k :: nat) (length [1, 2, 3 :: byte])))"
    by simp
  have s: "trial_samples ?clock (ticks ?w) = map int [0..<1000]"
    using trial_samples_ramp by simp
  have m: "sort (map int [0..<1000]) ! 500 = 500"
    by (simp add: sort_map_int_upt)
  note t = MeasureTransform_median [of 64 Array Omit "\<lambda>k n. True" ?clock "[1, 2, 3]" ?w,
      unfolded s m]
  from t h obtain w'
    where r: "MeasureTransform 64 Array Omit (\<lambda>k n. True) ?clock [1, 2, 3] ?w = (Inr (500, False), w')"
    by auto
  with t have "MeasureTransform_loop 64 Array Omit (\<lambda>k n. True) ?clock [1, 2, 3] []
      (?w\<lparr>allocs := Suc (allocs ?w)\<rparr>) = (Inr (map int [0..<1000]), w')"
    by blast
  with r h show ?thesis
    by auto
qed

section \<open>Reporting a configuration point\<close>

text \<open>
  C3. When the capacity is less than the length of the input, \<^verbatim>\<open>MeasureAndReport\<close>
  returns with the environment as it was: no reading of the clock, no request to the
  allocator, no output. When the capacity is at least the length of the input (equal included)
  it runs \<^verbatim>\<open>MeasureTransform\<close>, and when that returns a result it appends exactly one
  line, the report of that result, to the output. \<^verbatim>\<open>MeasureTransform\<close> does return under
  the conditions on the allocator stated for it.
\<close>

theorem MeasureAndReport_skip_or_one_line:
  "(TSize < length vecData \<longrightarrow>
      MeasureAndReport TSize rm eh new_ok clock vecData w = (Inr (), w))
   \<and> (length vecData \<le> TSize \<longrightarrow>
        (\<forall>testResult w'.
            MeasureTransform TSize rm eh new_ok clock vecData w = (Inr testResult, w') \<longrightarrow>
            ticks w' = ticks w + 2000
            \<and> MeasureAndReport TSize rm eh new_ok clock vecData w
              = (Inr (), w'\<lparr>cout := cout w @ [report_line (length vecData) TSize testResult eh]\<rparr>)))
   \<and> (length vecData \<le> TSize \<and> new_ok (allocs w) (40000 * 8)
        \<and> (eh = Include \<or> rm = Array \<or> (\<forall>k. new_ok k (length vecData))) \<longrightarrow>
        (\<exists>testResult w'.
            MeasureTransform TSize rm eh new_ok clock vecData w = (Inr testResult, w')
            \<and> MeasureAndReport TSize rm eh new_ok clock vecData w
              = (Inr (), w'\<lparr>cout := cout w @ [report_line (length vecData) TSize testResult eh]\<rparr>)))"
proof -
  have skip: "MeasureAndReport TSize rm eh new_ok clock vecData w = (Inr (), w)"
    if "TSize < length vecData"
    using that by (simp add: MeasureAndReport_def)
  have one: "ticks w' = ticks w + 2000
      \<and> MeasureAndReport TSize rm eh new_ok clock vecData w
        = (Inr (), w'\<lparr>cout := cout w @ [report_line (length vecData) TSize testResult eh]\<rparr>)"
    if fits: "length vecData \<le> TSize"
      and m: "MeasureTransform TSize rm eh new_ok clock vecData w = (Inr testResult, w')"
    for testResult w'
  proof -
    from MeasureTransform_partial [OF m] have "ticks w' = ticks w + 2000" and "cout w' = cout w"
      by simp_all
    with fits m show ?thesis
      by (simp add: MeasureAndReport_def)
  qed
  have returns: "\<exists>testResult w'.
      MeasureTransform TSize rm eh new_ok clock vecData w = (Inr testResult, w')
      \<and> MeasureAndReport TSize rm eh new_ok clock vecData w
        = (Inr (), w'\<lparr>cout := cout w @ [report_line (length vecData) TSize testResult eh]\<rparr>)"
    if a: "length vecData \<le> TSize \<and> new_ok (allocs w) (40000 * 8)
        \<and> (eh = Include \<or> rm = Array \<or> (\<forall>k. new_ok k (length vecData)))"
  proof -
    have "\<exists>w'. MeasureTransform_loop TSize rm eh new_ok clock vecData [] (w\<lparr>allocs := Suc (allocs w)\<rparr>)
               = (Inr (trial_samples clock (ticks w)), w')
             \<and> MeasureTransform TSize rm eh new_ok clock vecData w
               = (Inr (sort (trial_samples clock (ticks w)) ! 500, rm = Vector), w')
             \<and> ticks w' = ticks w + 2000 \<and> cout w' = cout w"
      using a by (intro MeasureTransform_returns) simp_all
    then obtain w'
      where m: "MeasureTransform TSize rm eh new_ok clock vecData w
               = (Inr (sort (trial_samples clock (ticks w)) ! 500, rm = Vector), w')"
      by blast
    from a have "length vecData \<le> TSize"
      by simp
    from one [OF this m] m show ?thesis
      by blast
  qed
  from skip one returns show ?thesis
    by blast
qed

theorem MeasureAndReport_skip_or_one_line_witness:
  "4 < length [1, 2, 3, 4, 5, 6, 7, 8, 9 :: byte]
   \<and> MeasureAndReport 4 Array Include (\<lambda>k n. True)
        (\<lambda>k. if odd k then 10000 * int (k div 2) else 0) [1, 2, 3, 4, 5, 6, 7, 8, 9]
        \<lparr>allocs = 0, ticks = 0, cout = []\<rparr>
      = (Inr (), \<lparr>allocs = 0, ticks = 0, cout = []\<rparr>)
   \<and> length [1, 2, 3, 4, 5, 6, 7, 8, 9 :: byte] \<le> 10
   \<and> (\<exists>w'. MeasureAndReport 10 Array Include (\<lambda>k n. True)
        (\<lambda>k. if odd k then 10000 * int (k div 2) else 0) [1, 2, 3, 4, 5, 6, 7, 8, 9]
        \<lparr>allocs = 0, ticks = 0, cout = []\<rparr>
      = (Inr (), w'\<lparr>cout := [''Data: 9, Buffer: 10, Duration:500 ns, Vector: 0, Exceptions: 1'']\<rparr>))"
proof -
  let ?w = "\<lparr>allocs = 0, ticks = 0, cout = []\<rparr>"
  let ?clock = "\<lambda>k. if odd k then 10000 * int (k div 2) else 0"
  let ?v = "[1, 2, 3, 4, 5, 6, 7, 8, 9 :: byte]"
  have small: "4 < length ?v" and fits: "length ?v \<le> 10" and len: "length ?v = 9"
    by simp_all
  have skip: "MeasureAndReport 4 Array Include (\<lambda>k n. True) ?clock ?v ?w = (Inr (), ?w)"
    using MeasureAndReport_skip_or_one_line [of 4 ?v Array Include "\<lambda>k n. True" ?clock ?w] small
    by blast
  have line: "report_line 9 10 (500, False) Include
      = ''Data: 9, Buffer: 10, Duration:500 ns, Vector: 0, Exceptions: 1''"
    by code_simp
  obtain w0 where m: "MeasureTransform 10 Array Include (\<lambda>k n. True) ?clock ?v ?w = (Inr (500, False), w0)"
    using MeasureTransform_ramp [of Include Array 10 ?v] by auto
  have "MeasureAndReport 10 Array Include (\<lambda>k n. True) ?clock ?v ?w
      = (Inr (), w0\<lparr>cout := cout ?w @ [report_line (length ?v) 10 (500, False) Include]\<rparr>)"
    using MeasureAndReport_skip_or_one_line [of 10 ?v Array Include "\<lambda>k n. True" ?clock ?w] fits m
    by blast
  then have "MeasureAndReport 10 Array Include (\<lambda>k n. True) ?clock ?v ?w
      = (Inr (), w0\<lparr>cout := [report_line 9 10 (500, False) Include]\<rparr>)"
    unfolding len by simp
  then have "\<exists>w'. MeasureAndReport 10 Array Include (\<lambda>k n. True) ?clock ?v ?w
      = (Inr (), w'\<lparr>cout := [''Data: 9, Buffer: 10, Duration:500 ns, Vector: 0, Exceptions: 1'']\<rparr>)"
    unfolding line by blast
  with small skip fits show ?thesis
    by blast
qed

end
